theory Spec2Isabelle
  imports Complex_Main "HOL-Library.Sublist"
begin

section \<open>Values handled by the endpoint\<close>

text \<open>
  The rows returned by the data-fetch service and the decoded \<open>question_details\<close> are
  Python values built from JSON: \<open>None\<close>, booleans, numbers, strings, lists and dicts.
  A dict is an association list read with \<open>map_of\<close> (the first binding of a key is the
  one that counts). A float is represented by the rational it denotes.
\<close>

datatype json =
    JNull
  | JBool bool
  | JInt int
  | JFloat rat
  | JStr string
  | JArr "json list"
  | JObj "(string \<times> json) list"

text \<open>A row of the table \<open>test_results\<close>: a dict from column names to values.\<close>

type_synonym test = "(string \<times> json) list"

text \<open>
  The exceptions that the endpoint can raise. \<open>HTTPException\<close> is FastAPI's exception
  class; it derives from \<open>Exception\<close>. The detail of the exception raised at line 82 is
  a message; the detail built at line 153 is the fixed text
  \<open>Error analyzing user weaknesses: \<close> followed by \<open>str(e)\<close> of the exception \<open>e\<close>
  that was caught, kept here as that exception.
\<close>

datatype exn =
    HTTPException nat detail
  | TypeError
  | KeyError
  | AttributeError
  | ValueError
and detail =
    Message string
  | ErrorAnalyzing exn

text \<open>The response models (lines 39-50). \<open>error_rate\<close> is a Python float; the model
  computes it in exact rational arithmetic.\<close>

record SubtopicWeakness =
  subtopic :: string
  section_name :: string
  error_rate :: rat
  total_questions :: int
  correct_answers :: int
  incorrect_answers :: int

record UserWeaknessResponse =
  user_id :: string
  weaknesses :: "SubtopicWeakness list"
  total_areas_analyzed :: int

section \<open>The accumulator\<close>

text \<open>
  \<open>user_comprehensive_stats\<close> is a \<open>defaultdict\<close> whose factory returns the dict
  \<open>{'correct': 0, 'incorrect': 0, 'total': 0}\<close> (line 85). Python dicts keep their
  keys in the order of first insertion, and lines 122 and 130 iterate in that order, so the
  accumulator is an association list with distinct keys, new keys added at the end.
\<close>

record stats =
  n_correct :: int
  n_incorrect :: int
  n_total :: int

type_synonym stats_dict = "(string \<times> stats) list"

definition new_stats :: stats where
  "new_stats = \<lparr>n_correct = 0, n_incorrect = 0, n_total = 0\<rparr>"

text \<open>\<open>d[key][field] += 1\<close> on the defaultdict: the entry is created by the factory
  when the key is new, then updated.\<close>

fun modify :: "string \<Rightarrow> (stats \<Rightarrow> stats) \<Rightarrow> stats_dict \<Rightarrow> stats_dict" where
  "modify k f [] = [(k, f new_stats)]"
| "modify k f ((k', s) # d) =
     (if k' = k then (k', f s) # d else (k', s) # modify k f d)"

section \<open>One question attempt (lines 100-116)\<close>

text \<open>\<open>q.get(key, default)\<close> on a dict.\<close>

definition dict_get :: "(string \<times> json) list \<Rightarrow> string \<Rightarrow> json \<Rightarrow> json" where
  "dict_get q k dflt = (case map_of q k of None \<Rightarrow> dflt | Some v \<Rightarrow> v)"

text \<open>Python's truth value of a JSON value, as \<open>if is_correct:\<close> reads it.\<close>

fun truthy :: "json \<Rightarrow> bool" where
  "truthy JNull = False"
| "truthy (JBool b) = b"
| "truthy (JInt i) = (i \<noteq> 0)"
| "truthy (JFloat x) = (x \<noteq> 0)"
| "truthy (JStr s) = (s \<noteq> [])"
| "truthy (JArr xs) = (xs \<noteq> [])"
| "truthy (JObj kvs) = (kvs \<noteq> [])"

text \<open>
  A value inside an f-string: a string stands for itself, any other value for its
  \<open>str()\<close>. Python's \<open>str\<close> on the other values is the parameter \<open>pystr\<close>.
\<close>

fun format_value :: "(json \<Rightarrow> string) \<Rightarrow> json \<Rightarrow> string" where
  "format_value pystr (JStr s) = s"
| "format_value pystr v = pystr v"

definition DELIM :: string where
  "DELIM = '' | ''"

text \<open>Line 105: \<open>f"{subtopic} | {section}"\<close>.\<close>

definition comprehensive_key :: "(json \<Rightarrow> string) \<Rightarrow> json \<Rightarrow> json \<Rightarrow> string" where
  "comprehensive_key pystr sub sec = format_value pystr sub @ DELIM @ format_value pystr sec"

definition subtopic_of :: "(string \<times> json) list \<Rightarrow> json" where
  "subtopic_of q = dict_get q ''subtopic'' (JStr ''Unknown'')"

definition section_of :: "(string \<times> json) list \<Rightarrow> json" where
  "section_of q = dict_get q ''section'' (JStr ''Unknown'')"

definition is_correct_of :: "(string \<times> json) list \<Rightarrow> json" where
  "is_correct_of q = dict_get q ''isCorrect'' (JBool False)"

definition key_of :: "(json \<Rightarrow> string) \<Rightarrow> (string \<times> json) list \<Rightarrow> string" where
  "key_of pystr q = comprehensive_key pystr (subtopic_of q) (section_of q)"

text \<open>Lines 111-116 for one key: one of the two counters, then the total.\<close>

definition count_attempt :: "string \<Rightarrow> bool \<Rightarrow> stats_dict \<Rightarrow> stats_dict" where
  "count_attempt key ok d =
     modify key (\<lambda>s. s\<lparr>n_total := n_total s + 1\<rparr>)
       (if ok then modify key (\<lambda>s. s\<lparr>n_correct := n_correct s + 1\<rparr>) d
        else modify key (\<lambda>s. s\<lparr>n_incorrect := n_incorrect s + 1\<rparr>) d)"

text \<open>
  The body of the loop over the questions. Only a dict has the method \<open>get\<close>: on any
  other value line 101 raises \<open>AttributeError\<close>, before the accumulator is touched.
\<close>

fun process_question :: "(json \<Rightarrow> string) \<Rightarrow> stats_dict \<Rightarrow> json \<Rightarrow> exn + stats_dict" where
  "process_question pystr d (JObj q) =
     Inr (count_attempt (key_of pystr q) (truthy (is_correct_of q)) d)"
| "process_question pystr d v = Inl AttributeError"

text \<open>
  The loop of line 99. The accumulator is mutated in place, so an exception leaves it as
  it was when the exception was raised: the result is that accumulator and the pending
  exception, if any.
\<close>

fun process_questions ::
  "(json \<Rightarrow> string) \<Rightarrow> stats_dict \<Rightarrow> json list \<Rightarrow> stats_dict \<times> exn option" where
  "process_questions pystr d [] = (d, None)"
| "process_questions pystr d (q # qs) =
     (case process_question pystr d q of
        Inl e \<Rightarrow> (d, Some e)
      | Inr d' \<Rightarrow> process_questions pystr d' qs)"

section \<open>One test record (lines 88-119)\<close>

text \<open>
  What \<open>for question in questions\<close> iterates over: the elements of a list, the keys of a
  dict, the characters of a string; any other value is not iterable (\<open>TypeError\<close>).
\<close>

fun iterate :: "json \<Rightarrow> exn + json list" where
  "iterate (JArr xs) = Inr xs"
| "iterate (JObj kvs) = Inr (map (\<lambda>kv. JStr (fst kv)) kvs)"
| "iterate (JStr s) = Inr (map (\<lambda>c. JStr [c]) s)"
| "iterate v = Inl TypeError"

text \<open>
  Lines 91-96. \<open>json.loads\<close> is the parameter \<open>loads\<close>: \<open>None\<close> when it raises
  \<open>JSONDecodeError\<close>. The outer \<open>None\<close> of \<open>decode\<close> is the \<open>continue\<close> of line 96.
\<close>

fun decode :: "(string \<Rightarrow> json option) \<Rightarrow> json \<Rightarrow> json option" where
  "decode loads (JStr s) = loads s"
| "decode loads v = Some v"

text \<open>The body of the \<open>try\<close> of line 88: the accumulator when it is left, and the
  exception that leaves it, if any.\<close>

definition try_body ::
  "(string \<Rightarrow> json option) \<Rightarrow> (json \<Rightarrow> string) \<Rightarrow> stats_dict \<Rightarrow> test \<Rightarrow> stats_dict \<times> exn option" where
  "try_body loads pystr d t =
     (case map_of t ''question_details'' of
        None \<Rightarrow> (d, Some KeyError)
      | Some v \<Rightarrow>
          (case decode loads v of
             None \<Rightarrow> (d, None)
           | Some questions \<Rightarrow>
               (case iterate questions of
                  Inl e \<Rightarrow> (d, Some e)
                | Inr qs \<Rightarrow> process_questions pystr d qs)))"

text \<open>The handler of line 118 catches \<open>TypeError\<close> and \<open>KeyError\<close> only.\<close>

definition process_test ::
  "(string \<Rightarrow> json option) \<Rightarrow> (json \<Rightarrow> string) \<Rightarrow> stats_dict \<Rightarrow> test \<Rightarrow> exn + stats_dict" where
  "process_test loads pystr d t =
     (case try_body loads pystr d t of
        (d', None) \<Rightarrow> Inr d'
      | (d', Some e) \<Rightarrow> if e = TypeError \<or> e = KeyError then Inr d' else Inl e)"

fun process_tests ::
  "(string \<Rightarrow> json option) \<Rightarrow> (json \<Rightarrow> string) \<Rightarrow> stats_dict \<Rightarrow> test list \<Rightarrow> exn + stats_dict" where
  "process_tests loads pystr d [] = Inr d"
| "process_tests loads pystr d (t # ts) =
     (case process_test loads pystr d t of
        Inl e \<Rightarrow> Inl e
      | Inr d' \<Rightarrow> process_tests loads pystr d' ts)"

section \<open>Error rates, emitted groups, order (lines 121-150)\<close>

text \<open>
  Lines 123-126. The loop of line 122 stores the rate in every entry of the accumulator;
  the model computes it where line 137 reads it. The division and the product are exact
  (the rounding of Python's floats is not modelled).
\<close>

definition calc_error_rate :: "stats \<Rightarrow> rat" where
  "calc_error_rate s =
     (if n_total s > 0 then (of_int (n_incorrect s) / of_int (n_total s)) * 100 else 0)"

text \<open>
  Python's \<open>key.split(" | ")\<close>: the pieces between the occurrences of the delimiter,
  found from left to right without overlap. The delimiter has three characters, so after
  a match at \<open>c # cs\<close> the scan resumes at \<open>drop 2 cs\<close>.
\<close>

fun split_delim :: "string \<Rightarrow> string list" where
  "split_delim [] = [[]]"
| "split_delim (c # cs) =
     (if prefix DELIM (c # cs) then [] # split_delim (drop 2 cs)
      else (case split_delim cs of
              [] \<Rightarrow> [[c]]
            | p # ps \<Rightarrow> (c # p) # ps))"

text \<open>
  Lines 129-141. The tuple assignment of line 132 raises \<open>ValueError\<close> unless the
  split has exactly two pieces.
\<close>

fun build_weaknesses :: "stats_dict \<Rightarrow> exn + SubtopicWeakness list" where
  "build_weaknesses [] = Inr []"
| "build_weaknesses ((k, s) # d) =
     (if n_total s \<ge> 1 then
        (case split_delim k of
           [sub, sec] \<Rightarrow>
             (case build_weaknesses d of
                Inl e \<Rightarrow> Inl e
              | Inr ws \<Rightarrow>
                  Inr (\<lparr>subtopic = sub, section_name = sec,
                        error_rate = calc_error_rate s,
                        total_questions = n_total s,
                        correct_answers = n_correct s,
                        incorrect_answers = n_incorrect s\<rparr> # ws))
         | _ \<Rightarrow> Inl ValueError)
      else build_weaknesses d)"

text \<open>Line 144: a stable sort, highest error rate first; \<open>reverse=True\<close> keeps the
  original order of equal keys.\<close>

definition sort_weaknesses :: "SubtopicWeakness list \<Rightarrow> SubtopicWeakness list" where
  "sort_weaknesses ws = sort_key (\<lambda>w. - error_rate w) ws"

section \<open>The endpoint\<close>

text \<open>The body of the \<open>try\<close> of line 71, from the fetched rows \<open>response.data\<close> on.\<close>

definition analyze ::
  "(string \<Rightarrow> json option) \<Rightarrow> (json \<Rightarrow> string) \<Rightarrow> string \<Rightarrow> test list \<Rightarrow> exn + UserWeaknessResponse" where
  "analyze loads pystr uid test_results =
     (if test_results = [] then
        Inl (HTTPException 404 (Message (''No onboarding test data found for user '' @ uid)))
      else
        (case process_tests loads pystr [] test_results of
           Inl e \<Rightarrow> Inl e
         | Inr d \<Rightarrow>
             (case build_weaknesses d of
                Inl e \<Rightarrow> Inl e
              | Inr ws \<Rightarrow>
                  Inr \<lparr>user_id = uid, weaknesses = sort_weaknesses ws,
                       total_areas_analyzed = int (length (sort_weaknesses ws))\<rparr>)))"

text \<open>Lines 152-153: every exception that leaves the body, of whatever class, is
  replaced by an \<open>HTTPException\<close> with status 500.\<close>

definition get_user_weaknesses ::
  "(string \<Rightarrow> json option) \<Rightarrow> (json \<Rightarrow> string) \<Rightarrow> string \<Rightarrow> test list \<Rightarrow> exn + UserWeaknessResponse" where
  "get_user_weaknesses loads pystr uid test_results =
     (case analyze loads pystr uid test_results of
        Inl e \<Rightarrow> Inl (HTTPException 500 (ErrorAnalyzing e))
      | Inr r \<Rightarrow> Inr r)"

text \<open>The status the client sees: 200 for a response, the status of an
  \<open>HTTPException\<close>, 500 for any other exception.\<close>

fun status_code :: "exn + UserWeaknessResponse \<Rightarrow> nat" where
  "status_code (Inr r) = 200"
| "status_code (Inl (HTTPException c d)) = c"
| "status_code (Inl e) = 500"


section \<open>Notions used to state the properties\<close>

subsection \<open>The question attempts of the input\<close>

fun is_dict :: "json \<Rightarrow> bool" where
  "is_dict (JObj q) = True"
| "is_dict v = False"

text \<open>The key and the outcome that lines 101-108 read from an attempt (a dict).\<close>

fun attempt_key :: "(json \<Rightarrow> string) \<Rightarrow> json \<Rightarrow> string" where
  "attempt_key pystr (JObj q) = key_of pystr q"
| "attempt_key pystr v = []"

fun attempt_correct :: "json \<Rightarrow> bool" where
  "attempt_correct (JObj q) = truthy (is_correct_of q)"
| "attempt_correct v = False"

text \<open>
  The entries that the loop of line 99 runs over for one record: the decoded
  \<open>question_details\<close>. A record that is skipped (no such column, a string that does not
  decode, a value that cannot be iterated) has none.
\<close>

definition attempts_of_test :: "(string \<Rightarrow> json option) \<Rightarrow> test \<Rightarrow> json list" where
  "attempts_of_test loads t =
     (case map_of t ''question_details'' of
        None \<Rightarrow> []
      | Some v \<Rightarrow>
          (case decode loads v of
             None \<Rightarrow> []
           | Some questions \<Rightarrow>
               (case iterate questions of Inl e \<Rightarrow> [] | Inr qs \<Rightarrow> qs)))"

definition all_attempts :: "(string \<Rightarrow> json option) \<Rightarrow> test list \<Rightarrow> json list" where
  "all_attempts loads ts = concat (map (attempts_of_test loads) ts)"

text \<open>Counting a list of attempts into an accumulator, one after the other.\<close>

fun tally :: "(json \<Rightarrow> string) \<Rightarrow> json list \<Rightarrow> stats_dict \<Rightarrow> stats_dict" where
  "tally pystr [] d = d"
| "tally pystr (q # qs) d =
     tally pystr qs (count_attempt (attempt_key pystr q) (attempt_correct q) d)"

text \<open>The two updates of lines 111-116 as one step on the entry of the key.\<close>

definition record_attempt :: "bool \<Rightarrow> stats \<Rightarrow> stats" where
  "record_attempt ok s =
     (if ok then s\<lparr>n_correct := n_correct s + 1, n_total := n_total s + 1\<rparr>
      else s\<lparr>n_incorrect := n_incorrect s + 1, n_total := n_total s + 1\<rparr>)"

text \<open>The invariant of every entry of the accumulator.\<close>

definition stats_ok :: "stats \<Rightarrow> bool" where
  "stats_ok s \<longleftrightarrow>
     1 \<le> n_total s \<and> n_correct s + n_incorrect s = n_total s \<and>
     0 \<le> n_correct s \<and> 0 \<le> n_incorrect s"

definition answered :: "stats \<Rightarrow> int" where
  "answered s = n_correct s + n_incorrect s"

subsection \<open>Emitted groups\<close>

text \<open>The group that lines 132-141 emit for an entry of the accumulator.\<close>

definition emits :: "string \<times> stats \<Rightarrow> SubtopicWeakness \<Rightarrow> bool" where
  "emits e w \<longleftrightarrow>
     split_delim (fst e) = [subtopic w, section_name w] \<and>
     error_rate w = calc_error_rate (snd e) \<and>
     total_questions w = n_total (snd e) \<and>
     correct_answers w = n_correct (snd e) \<and>
     incorrect_answers w = n_incorrect (snd e)"

text \<open>Python's \<open>" | ".join(pieces)\<close>, the inverse of the split.\<close>

fun join_delim :: "string list \<Rightarrow> string" where
  "join_delim [] = []"
| "join_delim [p] = p"
| "join_delim (p # q # ps) = p @ DELIM @ join_delim (q # ps)"

text \<open>The accumulator key of an emitted group.\<close>

definition group_key :: "SubtopicWeakness \<Rightarrow> string" where
  "group_key w = subtopic w @ DELIM @ section_name w"

subsection \<open>First encounter\<close>




subsection \<open>Keys that split back\<close>

text \<open>A string without the character \<open>|\<close>, and an attempt (a dict) whose subtopic and
  section, as line 105 formats them, are such strings.\<close>

definition bar_free :: "string \<Rightarrow> bool" where
  "bar_free s \<longleftrightarrow> CHR ''|'' \<notin> set s"

fun plain_attempt :: "(json \<Rightarrow> string) \<Rightarrow> json \<Rightarrow> bool" where
  "plain_attempt pystr (JObj q) =
     (bar_free (format_value pystr (subtopic_of q)) \<and>
      bar_free (format_value pystr (section_of q)))"
| "plain_attempt pystr v = False"

definition splits_in_two :: "string \<Rightarrow> bool" where
  "splits_in_two k \<longleftrightarrow> length (split_delim k) = 2"

text \<open>The entry of a key, as the defaultdict gives it.\<close>

definition lookup :: "stats_dict \<Rightarrow> string \<Rightarrow> stats" where
  "lookup d k = (case map_of d k of None \<Rightarrow> new_stats | Some s \<Rightarrow> s)"

subsection \<open>Well-formed records\<close>

text \<open>
  The attempts of a well-formed record, read off its \<open>question_details\<close>: a list,
  given as such or as a string that \<open>json.loads\<close> decodes to a list. Any other record
  has none.
\<close>

fun listed :: "json \<Rightarrow> json list option" where
  "listed (JArr qs) = Some qs"
| "listed v = None"

definition record_entries :: "(string \<Rightarrow> json option) \<Rightarrow> test \<Rightarrow> json list option" where
  "record_entries loads t =
     (case map_of t ''question_details'' of
        None \<Rightarrow> None
      | Some (JStr s) \<Rightarrow> (case loads s of None \<Rightarrow> None | Some v \<Rightarrow> listed v)
      | Some v \<Rightarrow> listed v)"

subsection \<open>Example data\<close>

text \<open>
  A decoder and a \<open>str\<close> for the examples. \<open>example_loads\<close> agrees with
  \<open>json.loads\<close> on the strings the examples pass to it: \<open>[{}]\<close> and \<open>[5]\<close> decode,
  \<open>{\<close> does not. \<open>example_str\<close> is \<open>str\<close> on \<open>None\<close> and the booleans; the
  examples format no other value that is not a string.
\<close>

definition example_loads :: "string \<Rightarrow> json option" where
  "example_loads s =
     (if s = ''[{}]'' then Some (JArr [JObj []])
      else if s = ''[5]'' then Some (JArr [JInt 5])
      else None)"

fun example_str :: "json \<Rightarrow> string" where
  "example_str JNull = ''None''"
| "example_str (JBool b) = (if b then ''True'' else ''False'')"
| "example_str v = ''?''"

definition attempt :: "string \<Rightarrow> string \<Rightarrow> bool \<Rightarrow> json" where
  "attempt sub sec ok =
     JObj [(''subtopic'', JStr sub), (''section'', JStr sec), (''isCorrect'', JBool ok)]"

text \<open>
  Four rows: three attempts in two groups; a string that decodes to one attempt without
  any field; a string that does not decode; a row without the column.
\<close>

definition example_tests :: "test list" where
  "example_tests =
     [[(''id'', JInt 1),
       (''question_details'',
          JArr [attempt ''Algebra'' ''Math'' True,
                attempt ''Grammar'' ''Verbal'' False,
                attempt ''Algebra'' ''Math'' False])],
      [(''id'', JInt 2), (''question_details'', JStr ''[{}]'')],
      [(''id'', JInt 3), (''question_details'', JStr ''{'')],
      [(''id'', JInt 4)]]"

definition example_response :: UserWeaknessResponse where
  "example_response =
     \<lparr>user_id = ''u1'',
      weaknesses =
        [\<lparr>subtopic = ''Grammar'', section_name = ''Verbal'', error_rate = 100,
          total_questions = 1, correct_answers = 0, incorrect_answers = 1\<rparr>,
         \<lparr>subtopic = ''Unknown'', section_name = ''Unknown'', error_rate = 100,
          total_questions = 1, correct_answers = 0, incorrect_answers = 1\<rparr>,
         \<lparr>subtopic = ''Algebra'', section_name = ''Math'', error_rate = 50,
          total_questions = 2, correct_answers = 1, incorrect_answers = 1\<rparr>],
      total_areas_analyzed = 3\<rparr>"

section \<open>Evaluation of the example\<close>

lemmas eval_defs = get_user_weaknesses_def analyze_def process_test_def try_body_def
  count_attempt_def key_of_def comprehensive_key_def subtopic_of_def section_of_def
  is_correct_of_def dict_get_def new_stats_def DELIM_def calc_error_rate_def
  sort_weaknesses_def example_loads_def attempt_def

lemma example_run:
  "get_user_weaknesses example_loads example_str ''u1'' example_tests = Inr example_response"
  by (simp add: eval_defs example_tests_def example_response_def)


section \<open>The accumulation loop\<close>

text \<open>For a well-formed record, a list of attempts given as such or as a string that
  decodes to it, the attempts are the entries of that list.\<close>

lemma attempts_of_list:
  "map_of t ''question_details'' = Some (JArr qs) \<Longrightarrow> attempts_of_test loads t = qs"
  by (simp add: attempts_of_test_def)

lemma attempts_of_encoded_list:
  "map_of t ''question_details'' = Some (JStr s) \<Longrightarrow> loads s = Some (JArr qs) \<Longrightarrow>
     attempts_of_test loads t = qs"
  by (simp add: attempts_of_test_def)

lemma tally_append: "tally pystr (xs @ ys) d = tally pystr ys (tally pystr xs d)"
  by (induction xs arbitrary: d) auto

lemma process_question_Inr:
  "process_question pystr d q = Inr d' \<Longrightarrow>
     is_dict q \<and> d' = count_attempt (attempt_key pystr q) (attempt_correct q) d"
  by (cases q) auto

lemma process_question_Inl: "process_question pystr d q = Inl e \<Longrightarrow> e = AttributeError"
  by (cases q) auto

lemma process_questions_None:
  "process_questions pystr d qs = (d', None) \<Longrightarrow>
     list_all is_dict qs \<and> d' = tally pystr qs d"
proof (induction qs arbitrary: d)
  case Nil
  then show ?case by simp
next
  case (Cons q qs)
  then show ?case
    by (auto split: sum.splits dest: process_question_Inr)
qed

lemma process_questions_Some:
  "process_questions pystr d qs = (d', Some e) \<Longrightarrow> e = AttributeError"
proof (induction qs arbitrary: d)
  case Nil
  then show ?case by simp
next
  case (Cons q qs)
  then show ?case
    by (auto split: sum.splits dest: process_question_Inl)
qed

lemma iterate_Inl: "iterate v = Inl e \<Longrightarrow> e = TypeError"
  by (cases v) auto

text \<open>A record that does not stop the request has only dicts as entries, and its
  effect on the accumulator is the count of these entries.\<close>

lemma process_test_Inr:
  assumes "process_test loads pystr d t = Inr d'"
  shows "list_all is_dict (attempts_of_test loads t) \<and>
         d' = tally pystr (attempts_of_test loads t) d"
  using assms
  unfolding process_test_def try_body_def attempts_of_test_def
  by (auto split: option.splits sum.splits prod.splits if_splits
      dest: process_questions_None process_questions_Some iterate_Inl)

lemma process_tests_Inr:
  "process_tests loads pystr d ts = Inr d' \<Longrightarrow>
     list_all is_dict (all_attempts loads ts) \<and> d' = tally pystr (all_attempts loads ts) d"
proof (induction ts arbitrary: d)
  case Nil
  then show ?case by (simp add: all_attempts_def)
next
  case (Cons t ts)
  from Cons.prems obtain d1 where
    t: "process_test loads pystr d t = Inr d1" and
    ts: "process_tests loads pystr d1 ts = Inr d'"
    by (auto split: sum.splits)
  from process_test_Inr[OF t] Cons.IH[OF ts] show ?case
    by (simp add: all_attempts_def tally_append)
qed

section \<open>The accumulator\<close>

lemma modify_modify: "modify k f (modify k g d) = modify k (\<lambda>s. f (g s)) d"
  by (induction d) auto

lemma record_attempt_True:
  "record_attempt True = (\<lambda>s. s\<lparr>n_correct := n_correct s + 1, n_total := n_total s + 1\<rparr>)"
  by (simp add: fun_eq_iff record_attempt_def)

lemma record_attempt_False:
  "record_attempt False = (\<lambda>s. s\<lparr>n_incorrect := n_incorrect s + 1, n_total := n_total s + 1\<rparr>)"
  by (simp add: fun_eq_iff record_attempt_def)

lemma count_attempt_modify: "count_attempt k ok d = modify k (record_attempt ok) d"
  by (cases ok)
    (simp_all add: count_attempt_def modify_modify record_attempt_True record_attempt_False)

lemma keys_modify:
  "map fst (modify k f d) = (if k \<in> fst ` set d then map fst d else map fst d @ [k])"
  by (induction d) (auto simp: image_iff split: if_splits)

lemma set_modify_pres:
  assumes "\<forall>e \<in> set d. P (snd e)" and "\<And>s. P s \<Longrightarrow> P (f s)" and "P (f new_stats)"
  shows "\<forall>e \<in> set (modify k f d). P (snd e)"
  using assms by (induction d) (fastforce split: if_splits)+

lemma stats_ok_record_attempt: "stats_ok s \<Longrightarrow> stats_ok (record_attempt ok s)"
  by (simp add: stats_ok_def record_attempt_def)

lemma stats_ok_first_attempt: "stats_ok (record_attempt ok new_stats)"
  by (simp add: stats_ok_def record_attempt_def new_stats_def)

lemma tally_stats_ok:
  "\<forall>e \<in> set d. stats_ok (snd e) \<Longrightarrow> \<forall>e \<in> set (tally pystr qs d). stats_ok (snd e)"
proof (induction qs arbitrary: d)
  case Nil
  then show ?case by simp
next
  case (Cons q qs)
  have "\<forall>e \<in> set (count_attempt (attempt_key pystr q) (attempt_correct q) d). stats_ok (snd e)"
    unfolding count_attempt_modify
    by (rule set_modify_pres[OF Cons.prems])
      (simp_all add: stats_ok_record_attempt stats_ok_first_attempt)
  then show ?case by (simp add: Cons.IH)
qed

lemma tally_all_ok: "\<forall>e \<in> set (tally pystr qs []). stats_ok (snd e)"
  by (rule tally_stats_ok) simp

lemma sum_modify:
  assumes "\<And>s. g (f s) = g s + 1" and "g new_stats = (0::int)"
  shows "sum_list (map (\<lambda>e. g (snd e)) (modify k f d)) = sum_list (map (\<lambda>e. g (snd e)) d) + 1"
  using assms by (induction d) auto

lemma tally_answered:
  "sum_list (map (\<lambda>e. answered (snd e)) (tally pystr qs d)) =
     sum_list (map (\<lambda>e. answered (snd e)) d) + int (length qs)"
proof (induction qs arbitrary: d)
  case Nil
  then show ?case by simp
next
  case (Cons q qs)
  have "sum_list (map (\<lambda>e. answered (snd e))
          (count_attempt (attempt_key pystr q) (attempt_correct q) d)) =
        sum_list (map (\<lambda>e. answered (snd e)) d) + 1"
    unfolding count_attempt_modify
    by (rule sum_modify) (simp_all add: answered_def record_attempt_def new_stats_def)
  then show ?case by (simp add: Cons.IH)
qed

section \<open>Emission and order\<close>

lemma build_weaknesses_Inr:
  "build_weaknesses d = Inr ws \<Longrightarrow> \<forall>e \<in> set d. 1 \<le> n_total (snd e) \<Longrightarrow> list_all2 emits d ws"
proof (induction d arbitrary: ws)
  case Nil
  then show ?case by simp
next
  case (Cons e d)
  obtain k s where e: "e = (k, s)" by (cases e)
  from Cons.prems(2) e have tot: "1 \<le> n_total s" by simp
  from Cons.prems(1) e tot obtain sub sec ws' where
    sp: "split_delim k = [sub, sec]" and
    rest: "build_weaknesses d = Inr ws'" and
    ws: "ws = \<lparr>subtopic = sub, section_name = sec, error_rate = calc_error_rate s,
               total_questions = n_total s, correct_answers = n_correct s,
               incorrect_answers = n_incorrect s\<rparr> # ws'"
    by (auto split: list.splits sum.splits)
  from Cons.IH[OF rest] Cons.prems(2) have tl: "list_all2 emits d ws'" by simp
  have hd: "emits (k, s) \<lparr>subtopic = sub, section_name = sec, error_rate = calc_error_rate s,
               total_questions = n_total s, correct_answers = n_correct s,
               incorrect_answers = n_incorrect s\<rparr>"
    using sp by (simp add: emits_def)
  from hd tl show ?case unfolding ws e by simp
qed

lemma emitted_from:
  "list_all2 emits d ws \<Longrightarrow> w \<in> set ws \<Longrightarrow> \<exists>e \<in> set d. emits e w"
  by (induction rule: list_all2_induct) auto

lemma sum_insort_key:
  "sum_list (map g (insort_key f x xs)) = g x + sum_list (map (g :: 'a \<Rightarrow> int) xs)"
  by (induction xs) auto

lemma sum_sort_key: "sum_list (map g (sort_key f xs)) = sum_list (map (g :: 'a \<Rightarrow> int) xs)"
  by (induction xs) (auto simp: sum_insort_key)

lemma emits_answered:
  "list_all2 emits d ws \<Longrightarrow>
     sum_list (map (\<lambda>w. correct_answers w + incorrect_answers w) ws) =
     sum_list (map (\<lambda>e. answered (snd e)) d)"
  by (induction rule: list_all2_induct) (auto simp: emits_def answered_def)

lemma split_delim_nonempty: "split_delim s \<noteq> []"
  by (induction s rule: split_delim.induct) (auto split: list.splits)

lemma join_delim_Cons: "join_delim ((c # p) # ps) = c # join_delim (p # ps)"
  by (cases ps) auto

lemma prefix_DELIM_drop: "prefix DELIM (c # cs) \<Longrightarrow> c # cs = DELIM @ drop 2 cs"
  by (auto simp: DELIM_def prefix_def)

lemma join_split_delim: "join_delim (split_delim s) = s"
proof (induction s rule: split_delim.induct)
  case 1
  show ?case by simp
next
  case (2 c cs)
  show ?case
  proof (cases "prefix DELIM (c # cs)")
    case True
    obtain q ps where qs: "split_delim (drop 2 cs) = q # ps"
      using split_delim_nonempty[of "drop 2 cs"] by (cases "split_delim (drop 2 cs)") auto
    from 2(1)[OF True] qs have j: "join_delim (q # ps) = drop 2 cs" by simp
    have s: "split_delim (c # cs) = [] # q # ps" using True qs by simp
    have "join_delim (split_delim (c # cs)) = DELIM @ drop 2 cs"
      unfolding s using j by simp
    also have "\<dots> = c # cs" by (rule prefix_DELIM_drop[OF True, symmetric])
    finally show ?thesis .
  next
    case False
    obtain p ps where ps: "split_delim cs = p # ps"
      using split_delim_nonempty[of cs] by (cases "split_delim cs") auto
    from 2(2)[OF False] ps have "join_delim (p # ps) = cs" by simp
    with False ps show ?thesis by (simp add: join_delim_Cons)
  qed
qed

lemma split_delim_two: "split_delim k = [a, b] \<Longrightarrow> k = a @ DELIM @ b"
  using join_split_delim[of k] by simp

lemma emits_group_key: "emits e w \<Longrightarrow> group_key w = fst e"
  by (auto simp: emits_def group_key_def dest: split_delim_two)









text \<open>What a successful request is made of.\<close>

lemma success_decomp:
  assumes "get_user_weaknesses loads pystr uid ts = Inr r"
  obtains ws where
    "ts \<noteq> []"
    "list_all is_dict (all_attempts loads ts)"
    "process_tests loads pystr [] ts = Inr (tally pystr (all_attempts loads ts) [])"
    "list_all2 emits (tally pystr (all_attempts loads ts) []) ws"
    "r = \<lparr>user_id = uid, weaknesses = sort_weaknesses ws,
          total_areas_analyzed = int (length (sort_weaknesses ws))\<rparr>"
proof -
  from assms have ne: "ts \<noteq> []"
    by (auto simp: get_user_weaknesses_def analyze_def split: sum.splits if_splits)
  from assms ne obtain d ws where
    d: "process_tests loads pystr [] ts = Inr d" and
    b: "build_weaknesses d = Inr ws" and
    r: "r = \<lparr>user_id = uid, weaknesses = sort_weaknesses ws,
          total_areas_analyzed = int (length (sort_weaknesses ws))\<rparr>"
    by (auto simp: get_user_weaknesses_def analyze_def split: sum.splits if_splits)
  from process_tests_Inr[OF d] have
    dicts: "list_all is_dict (all_attempts loads ts)" and
    deq: "d = tally pystr (all_attempts loads ts) []"
    by simp_all
  have "\<forall>e \<in> set d. stats_ok (snd e)"
    unfolding deq by (rule tally_stats_ok) simp
  then have "\<forall>e \<in> set d. 1 \<le> n_total (snd e)"
    by (simp add: stats_ok_def)
  from build_weaknesses_Inr[OF b this] have "list_all2 emits d ws" .
  with ne dicts d deq r show ?thesis
    using that by simp
qed

section \<open>Inputs that are answered, and what a group counts\<close>

lemma prefix_DELIM_bar: "prefix DELIM s \<Longrightarrow> CHR ''|'' \<in> set s"
  by (auto simp: DELIM_def prefix_def)

lemma split_delim_bar_free: "bar_free s \<Longrightarrow> split_delim s = [s]"
proof (induction s rule: split_delim.induct)
  case 1
  show ?case by simp
next
  case (2 c cs)
  from 2(3) have np: "\<not> prefix DELIM (c # cs)"
    using prefix_DELIM_bar[of "c # cs"] by (auto simp: bar_free_def)
  from 2(3) have "bar_free cs" by (simp add: bar_free_def)
  from 2(2)[OF np this] np show ?case by simp
qed

lemma split_delim_joined:
  "bar_free a \<Longrightarrow> bar_free b \<Longrightarrow> split_delim (a @ DELIM @ b) = [a, b]"
proof (induction a)
  case Nil
  then show ?case by (simp add: DELIM_def split_delim_bar_free)
next
  case (Cons c a)
  from Cons.prems(1) have c: "c \<noteq> CHR ''|''" and a: "bar_free a"
    by (auto simp: bar_free_def)
  have np: "\<not> prefix DELIM (c # a @ DELIM @ b)"
  proof (cases a)
    case Nil
    then show ?thesis by (simp add: DELIM_def)
  next
    case (Cons x xs)
    with a have "x \<noteq> CHR ''|''" by (auto simp: bar_free_def)
    with Cons show ?thesis by (simp add: DELIM_def)
  qed
  from Cons.IH[OF a Cons.prems(2)] np show ?case by simp
qed

lemma process_questions_dicts:
  "list_all is_dict qs \<Longrightarrow> process_questions pystr d qs = (tally pystr qs d, None)"
proof (induction qs arbitrary: d)
  case Nil
  then show ?case by simp
next
  case (Cons q qs)
  then obtain kv where "q = JObj kv" by (cases q) auto
  with Cons show ?case by simp
qed

lemma process_test_dicts:
  assumes "list_all is_dict (attempts_of_test loads t)"
  shows "process_test loads pystr d t = Inr (tally pystr (attempts_of_test loads t) d)"
  using assms
  unfolding process_test_def try_body_def attempts_of_test_def
  by (auto split: option.splits sum.splits dest: iterate_Inl simp: process_questions_dicts)

lemma process_tests_dicts:
  "list_all is_dict (all_attempts loads ts) \<Longrightarrow>
     process_tests loads pystr d ts = Inr (tally pystr (all_attempts loads ts) d)"
proof (induction ts arbitrary: d)
  case Nil
  then show ?case by (simp add: all_attempts_def)
next
  case (Cons t ts)
  then have "list_all is_dict (attempts_of_test loads t)" "list_all is_dict (all_attempts loads ts)"
    by (simp_all add: all_attempts_def)
  with Cons.IH show ?case
    by (simp add: process_test_dicts all_attempts_def tally_append)
qed

lemma build_weaknesses_succeeds:
  "\<forall>e \<in> set d. splits_in_two (fst e) \<Longrightarrow> \<exists>ws. build_weaknesses d = Inr ws"
proof (induction d)
  case Nil
  then show ?case by simp
next
  case (Cons e d)
  obtain k s where e: "e = (k, s)" by (cases e)
  from Cons.prems e obtain a b where "split_delim k = [a, b]"
    by (auto simp: splits_in_two_def length_Suc_conv numeral_2_eq_2)
  moreover from Cons obtain ws where "build_weaknesses d = Inr ws" by auto
  ultimately show ?case using e by simp
qed

lemma keys_tally:
  "fst ` set (tally pystr qs d) = fst ` set d \<union> attempt_key pystr ` set qs"
proof (induction qs arbitrary: d)
  case Nil
  then show ?case by simp
next
  case (Cons q qs)
  have "set (map fst (count_attempt (attempt_key pystr q) (attempt_correct q) d)) =
        insert (attempt_key pystr q) (set (map fst d))"
    unfolding count_attempt_modify keys_modify by auto
  then have "fst ` set (count_attempt (attempt_key pystr q) (attempt_correct q) d) =
        insert (attempt_key pystr q) (fst ` set d)"
    by simp
  with Cons.IH show ?case by auto
qed

lemma plain_attempt_key:
  "plain_attempt pystr q \<Longrightarrow> is_dict q \<and> splits_in_two (attempt_key pystr q)"
  by (cases q)
    (auto simp: splits_in_two_def key_of_def comprehensive_key_def split_delim_joined)

text \<open>A non-empty input all of whose attempts are dicts with no \<open>|\<close> in subtopic and
  section gets a successful response.\<close>

lemma plain_input_succeeds:
  assumes "ts \<noteq> []" and "list_all (plain_attempt pystr) (all_attempts loads ts)"
  shows "\<exists>r. get_user_weaknesses loads pystr uid ts = Inr r"
proof -
  let ?qs = "all_attempts loads ts"
  from assms(2) have dicts: "list_all is_dict ?qs"
    and keys: "\<forall>q \<in> set ?qs. splits_in_two (attempt_key pystr q)"
    by (auto simp: list_all_iff dest: plain_attempt_key)
  have run: "process_tests loads pystr [] ts = Inr (tally pystr ?qs [])"
    by (rule process_tests_dicts[OF dicts])
  have "\<forall>e \<in> set (tally pystr ?qs []). splits_in_two (fst e)"
  proof
    fix e assume "e \<in> set (tally pystr ?qs [])"
    then have "fst e \<in> fst ` set (tally pystr ?qs [])" by simp
    then have "fst e \<in> attempt_key pystr ` set ?qs" by (simp add: keys_tally)
    with keys show "splits_in_two (fst e)" by auto
  qed
  then obtain ws where "build_weaknesses (tally pystr ?qs []) = Inr ws"
    using build_weaknesses_succeeds by blast
  with run assms(1) show ?thesis
    by (simp add: get_user_weaknesses_def analyze_def)
qed

lemma lookup_modify:
  "lookup (modify k f d) k' = (if k' = k then f (lookup d k) else lookup d k')"
  by (induction d) (auto simp: lookup_def)

lemma total_tally:
  "n_total (lookup (tally pystr qs d) k) =
     n_total (lookup d k) + int (length (filter (\<lambda>q. attempt_key pystr q = k) qs))"
proof (induction qs arbitrary: d)
  case Nil
  then show ?case by simp
next
  case (Cons q qs)
  show ?case
    unfolding tally.simps Cons.IH
    by (simp add: count_attempt_modify lookup_modify record_attempt_def)
qed

lemma distinct_keys_modify: "distinct (map fst d) \<Longrightarrow> distinct (map fst (modify k f d))"
  by (simp add: keys_modify)

lemma distinct_keys_tally: "distinct (map fst d) \<Longrightarrow> distinct (map fst (tally pystr qs d))"
  by (induction qs arbitrary: d) (simp_all add: count_attempt_modify distinct_keys_modify)

lemma lookup_entry: "distinct (map fst d) \<Longrightarrow> e \<in> set d \<Longrightarrow> lookup d (fst e) = snd e"
  by (cases e) (simp add: lookup_def)

text \<open>The total of an emitted group is the number of attempts of the input whose
  joined key is the group's key.\<close>

lemma group_counts_by_key:
  assumes "get_user_weaknesses loads pystr uid ts = Inr r" and "w \<in> set (weaknesses r)"
  shows "total_questions w =
           int (length (filter (\<lambda>q. attempt_key pystr q = group_key w) (all_attempts loads ts)))"
proof -
  from assms(1) obtain ws where
    em: "list_all2 emits (tally pystr (all_attempts loads ts) []) ws" and
    r: "r = \<lparr>user_id = uid, weaknesses = sort_weaknesses ws,
             total_areas_analyzed = int (length (sort_weaknesses ws))\<rparr>"
    by (rule success_decomp)
  let ?d = "tally pystr (all_attempts loads ts) []"
  from assms(2) r have "w \<in> set ws" by (simp add: sort_weaknesses_def)
  with em obtain e where e: "e \<in> set ?d" "emits e w" by (blast dest: emitted_from)
  have "distinct (map fst ?d)" by (rule distinct_keys_tally) simp
  from lookup_entry[OF this e(1)] have "n_total (snd e) = n_total (lookup ?d (fst e))" by simp
  also have "\<dots> = int (length (filter (\<lambda>q. attempt_key pystr q = fst e) (all_attempts loads ts)))"
  proof -
    have "n_total (lookup [] (fst e)) = 0" by (simp add: lookup_def new_stats_def)
    then show ?thesis unfolding total_tally by simp
  qed
  finally show ?thesis using e(2) emits_group_key[OF e(2)] by (simp add: emits_def)
qed

text \<open>In a successful response the answers of the emitted groups add up to the number
  of attempts that the loop of line 99 ran over.\<close>

lemma answers_sum_to_attempts:
  assumes "get_user_weaknesses loads pystr uid ts = Inr r"
  shows "sum_list (map (\<lambda>w. correct_answers w + incorrect_answers w) (weaknesses r)) =
         int (length (all_attempts loads ts))"
proof -
  from assms obtain ws where
    em: "list_all2 emits (tally pystr (all_attempts loads ts) []) ws" and
    r: "r = \<lparr>user_id = uid, weaknesses = sort_weaknesses ws,
             total_areas_analyzed = int (length (sort_weaknesses ws))\<rparr>"
    by (rule success_decomp)
  have "sum_list (map (\<lambda>w. correct_answers w + incorrect_answers w) (weaknesses r)) =
        sum_list (map (\<lambda>w. correct_answers w + incorrect_answers w) ws)"
    using r by (simp add: sort_weaknesses_def sum_sort_key)
  also have "\<dots> = sum_list (map (\<lambda>e. answered (snd e)) (tally pystr (all_attempts loads ts) []))"
    by (rule emits_answered[OF em])
  also have "\<dots> = int (length (all_attempts loads ts))"
    by (simp add: tally_answered)
  finally show ?thesis .
qed

text \<open>
  For a non-empty input of well-formed records whose subtopics and sections hold no
  \<open>|\<close>, a response is produced and its answers add up to the number of entries of the
  records' lists.
\<close>

lemma listed_Some: "listed v = Some qs \<Longrightarrow> v = JArr qs"
  by (cases v) auto

lemma record_entries_attempts:
  "record_entries loads t = Some qs \<Longrightarrow> attempts_of_test loads t = qs"
  by (auto simp: record_entries_def attempts_of_test_def split: option.splits json.splits
      dest!: listed_Some)

lemma entries_all_attempts:
  "map (record_entries loads) ts = map Some qss \<Longrightarrow> all_attempts loads ts = concat qss"
proof (induction ts arbitrary: qss)
  case Nil
  then show ?case by (simp add: all_attempts_def)
next
  case (Cons t ts)
  then obtain qs rest where qss: "qss = qs # rest" by (cases qss) auto
  with Cons.prems have "record_entries loads t = Some qs"
    and "map (record_entries loads) ts = map Some rest" by simp_all
  with Cons.IH qss show ?case
    by (simp add: all_attempts_def record_entries_attempts)
qed

lemma well_formed_plain_input_sum:
  assumes "ts \<noteq> []"
    and "map (record_entries loads) ts = map Some qss"
    and "list_all (plain_attempt pystr) (concat qss)"
  shows "\<exists>r. get_user_weaknesses loads pystr uid ts = Inr r \<and>
           sum_list (map (\<lambda>w. correct_answers w + incorrect_answers w) (weaknesses r)) =
             int (length (concat qss))"
proof -
  from assms(2) have all: "all_attempts loads ts = concat qss" by (rule entries_all_attempts)
  with assms(1,3) obtain r where r: "get_user_weaknesses loads pystr uid ts = Inr r"
    using plain_input_succeeds[of ts pystr loads uid] by auto
  from answers_sum_to_attempts[OF r] all r show ?thesis by simp
qed

section \<open>The empty fetch\<close>

text \<open>
  C1. When the fetch returns no rows, line 82 raises the 404 inside the \<open>try\<close> of line
  71, and the handler of line 152 catches it like any other exception: the client gets
  status 500, whose detail wraps the 404 message. The endpoint never answers 404.
\<close>

theorem empty_fetch_gives_500:
  "get_user_weaknesses loads pystr uid [] =
     Inl (HTTPException 500 (ErrorAnalyzing
       (HTTPException 404 (Message (''No onboarding test data found for user '' @ uid)))))
   \<and> status_code (get_user_weaknesses loads pystr uid []) = 500"
  by (simp add: get_user_weaknesses_def analyze_def)

section \<open>Malformed records\<close>

text \<open>
  C2. A record whose \<open>question_details\<close> is a list with an entry that is not a dict
  (here the number 5) is not skipped: line 101 raises \<open>AttributeError\<close>, which the handler
  of line 118 does not catch, and the whole request fails with status 500 although the
  first record is well formed.
\<close>

theorem malformed_record_fails_request:
  "get_user_weaknesses example_loads example_str ''u1''
     [[(''question_details'', JArr [attempt ''Algebra'' ''Math'' True])],
      [(''question_details'', JArr [JInt 5])]]
   = Inl (HTTPException 500 (ErrorAnalyzing AttributeError))"
  by (simp add: eval_defs)

text \<open>
  C3 (as the code has it). When the only record holds a string that does not decode,
  the record leaves the accumulator as it was and contributes no attempt, and the
  endpoint answers with a successful response whose list of weaknesses is empty and whose
  \<open>total_areas_analyzed\<close> is 0.
\<close>

theorem undecodable_only_record:
  assumes "map_of t ''question_details'' = Some (JStr s)" and "loads s = None"
  shows "process_test loads pystr d t = Inr d \<and>
         attempts_of_test loads t = [] \<and>
         get_user_weaknesses loads pystr uid [t] =
           Inr \<lparr>user_id = uid, weaknesses = [], total_areas_analyzed = 0\<rparr>"
  using assms
  by (simp add: get_user_weaknesses_def analyze_def process_test_def try_body_def
      attempts_of_test_def sort_weaknesses_def)

theorem undecodable_only_record_witness:
  "map_of [(''question_details'', JStr ''{'')] ''question_details'' = Some (JStr ''{'') \<and>
   example_loads ''{'' = None \<and>
   process_test example_loads example_str [] [(''question_details'', JStr ''{'')] = Inr [] \<and>
   get_user_weaknesses example_loads example_str ''u1'' [[(''question_details'', JStr ''{'')]] =
     Inr \<lparr>user_id = ''u1'', weaknesses = [], total_areas_analyzed = 0\<rparr>"
proof -
  have h1: "map_of [(''question_details'', JStr ''{'')] ''question_details'' = Some (JStr ''{'')"
    by simp
  have h2: "example_loads ''{'' = None" by (simp add: example_loads_def)
  from undecodable_only_record[where loads = example_loads and pystr = example_str
      and d = "[]" and uid = "''u1''", OF h1 h2] h1 h2
  show ?thesis by simp
qed

text \<open>
  C3 as stated fails: for the single record whose \<open>question_details\<close> is the string
  \<open>{\<close>, the status is not 404 (it is 200).
\<close>

theorem undecodable_only_record_counterexample:
  "status_code (get_user_weaknesses example_loads example_str ''u1''
     [[(''question_details'', JStr ''{'')]]) \<noteq> 404"
  by (simp add: eval_defs)

section \<open>Groups\<close>

text \<open>
  C4. Two attempts with different (subtopic, section) pairs, \<open>("a", "| b")\<close> and
  \<open>("a |", "b")\<close>, have the same joined key \<open>a | | b\<close>: they are counted in one group,
  which is emitted under the pair \<open>("a", "| b")\<close> with a total of 2.
\<close>

theorem delimiter_collision_merges_groups:
  "get_user_weaknesses example_loads example_str ''u1''
     [[(''question_details'', JArr [attempt ''a'' ''| b'' False, attempt ''a |'' ''b'' True])]]
   = Inr \<lparr>user_id = ''u1'',
          weaknesses =
            [\<lparr>subtopic = ''a'', section_name = ''| b'', error_rate = 50,
              total_questions = 2, correct_answers = 1, incorrect_answers = 1\<rparr>],
          total_areas_analyzed = 1\<rparr>"
  by (simp add: eval_defs)

text \<open>
  C5. A well-formed, non-empty input with one attempt whose subtopic is
  \<open>Algebra | Linear\<close>: the attempt is counted (the accumulator holds one entry with a
  total of 1), but its joined key splits into three pieces, line 132 raises
  \<open>ValueError\<close>, and the request ends with status 500: no group is emitted, so no sum
  over emitted groups equals the one attempt of the input.
\<close>

theorem delimiter_in_subtopic_fails_request:
  "process_tests example_loads example_str []
     [[(''question_details'', JArr [attempt ''Algebra | Linear'' ''Math'' False])]] =
     Inr [(''Algebra | Linear | Math'', \<lparr>n_correct = 0, n_incorrect = 1, n_total = 1\<rparr>)] \<and>
   split_delim ''Algebra | Linear | Math'' = [''Algebra'', ''Linear'', ''Math''] \<and>
   get_user_weaknesses example_loads example_str ''u1''
     [[(''question_details'', JArr [attempt ''Algebra | Linear'' ''Math'' False])]] =
     Inl (HTTPException 500 (ErrorAnalyzing ValueError))"
  by (simp add: eval_defs)

section \<open>Error rates\<close>

text \<open>
  C6. With the error rate computed in exact rational arithmetic (the source computes it
  in floating point), every emitted group has
  \<open>error_rate = 100 * incorrect_answers / total_questions\<close>, and the error rate lies
  between 0 and 100.
\<close>

theorem error_rate_formula:
  assumes "get_user_weaknesses loads pystr uid ts = Inr r"
  shows "\<forall>w \<in> set (weaknesses r).
           error_rate w = 100 * of_int (incorrect_answers w) / of_int (total_questions w) \<and>
           0 \<le> error_rate w \<and> error_rate w \<le> 100"
proof
  fix w assume w: "w \<in> set (weaknesses r)"
  from assms obtain ws where
    em: "list_all2 emits (tally pystr (all_attempts loads ts) []) ws" and
    r: "r = \<lparr>user_id = uid, weaknesses = sort_weaknesses ws,
             total_areas_analyzed = int (length (sort_weaknesses ws))\<rparr>"
    by (rule success_decomp)
  let ?d = "tally pystr (all_attempts loads ts) []"
  from w r have "w \<in> set ws" by (simp add: sort_weaknesses_def)
  with em obtain e where e: "e \<in> set ?d" "emits e w" by (blast dest: emitted_from)
  from e(1) tally_all_ok have ok: "stats_ok (snd e)" by blast
  from ok have pos: "0 < n_total (snd e)" and le: "n_incorrect (snd e) \<le> n_total (snd e)"
    and nn: "0 \<le> n_incorrect (snd e)"
    by (simp_all add: stats_ok_def)
  define q :: rat where "q = of_int (n_incorrect (snd e)) / of_int (n_total (snd e))"
  from e(2) pos have rate: "error_rate w = q * 100"
    and inc: "incorrect_answers w = n_incorrect (snd e)"
    and tot: "total_questions w = n_total (snd e)"
    by (simp_all add: emits_def calc_error_rate_def q_def)
  have q0: "0 \<le> q" using nn pos by (simp add: q_def)
  have q1: "q \<le> 1" using le pos by (simp add: q_def)
  have "q * 100 = 100 * of_int (incorrect_answers w) / of_int (total_questions w)"
    by (simp add: q_def inc tot)
  moreover from q0 have "0 \<le> q * 100" by simp
  moreover from q1 have "q * 100 \<le> 100" by simp
  ultimately show
    "error_rate w = 100 * of_int (incorrect_answers w) / of_int (total_questions w) \<and>
     0 \<le> error_rate w \<and> error_rate w \<le> 100"
    unfolding rate by simp
qed

theorem error_rate_formula_witness:
  "get_user_weaknesses example_loads example_str ''u1'' example_tests = Inr example_response \<and>
   list_all (\<lambda>w. error_rate w = 100 * of_int (incorrect_answers w) / of_int (total_questions w) \<and>
                0 \<le> error_rate w \<and> error_rate w \<le> 100)
     (weaknesses example_response)"
proof -
  from error_rate_formula[OF example_run]
  have "list_all (\<lambda>w. error_rate w = 100 * of_int (incorrect_answers w) / of_int (total_questions w) \<and>
                0 \<le> error_rate w \<and> error_rate w \<le> 100)
     (weaknesses example_response)"
    unfolding list_all_iff .
  with example_run show ?thesis by (rule conjI)
qed

section \<open>Order of the response\<close>

text \<open>
  C7. In every successful response the list of weaknesses is in descending order of
  error rate: each entry's error rate is at least that of the next entry.
\<close>

theorem weaknesses_sorted_desc:
  assumes "get_user_weaknesses loads pystr uid ts = Inr r"
  shows "\<forall>i. Suc i < length (weaknesses r) \<longrightarrow>
           error_rate (weaknesses r ! Suc i) \<le> error_rate (weaknesses r ! i)"
proof (intro allI impI)
  fix i assume i: "Suc i < length (weaknesses r)"
  from assms obtain ws where
    r: "r = \<lparr>user_id = uid, weaknesses = sort_weaknesses ws,
             total_areas_analyzed = int (length (sort_weaknesses ws))\<rparr>"
    by (rule success_decomp)
  let ?xs = "sort_key (\<lambda>w. - error_rate w) ws"
  have xs: "weaknesses r = ?xs" using r by (simp add: sort_weaknesses_def)
  have "sorted (map (\<lambda>w. - error_rate w) ?xs)" by (rule sorted_sort_key)
  moreover from i xs have "Suc i < length (map (\<lambda>w. - error_rate w) ?xs)" by simp
  ultimately have "map (\<lambda>w. - error_rate w) ?xs ! i \<le> map (\<lambda>w. - error_rate w) ?xs ! Suc i"
    by (meson sorted_nth_mono le_SucI order_refl)
  with i xs show "error_rate (weaknesses r ! Suc i) \<le> error_rate (weaknesses r ! i)"
    by simp
qed

theorem weaknesses_sorted_desc_witness:
  "get_user_weaknesses example_loads example_str ''u1'' example_tests = Inr example_response \<and>
   length (weaknesses example_response) = 3 \<and>
   error_rate (weaknesses example_response ! Suc 0) \<le> error_rate (weaknesses example_response ! 0) \<and>
   error_rate (weaknesses example_response ! Suc (Suc 0)) \<le>
     error_rate (weaknesses example_response ! Suc 0)"
proof -
  note sorted = weaknesses_sorted_desc[OF example_run, rule_format]
  have len: "length (weaknesses example_response) = 3"
    by (simp add: example_response_def)
  from len have "Suc 0 < length (weaknesses example_response)"
    and "Suc (Suc 0) < length (weaknesses example_response)"
    by simp_all
  from sorted[OF this(1)] sorted[OF this(2)] len example_run show ?thesis by simp
qed



section \<open>Defaults\<close>




section \<open>The invariant of emitted groups\<close>

text \<open>
  C10. Every emitted group has \<open>total_questions \<ge> 1\<close> and
  \<open>correct_answers + incorrect_answers = total_questions\<close>. An entry of the accumulator
  exists only once an attempt has been counted into it, so every entry has a total of at
  least 1 and the filter of line 131 drops none: the response has one group per entry.
\<close>

theorem emitted_totals_positive:
  assumes "get_user_weaknesses loads pystr uid ts = Inr r"
  shows "(\<forall>w \<in> set (weaknesses r).
            1 \<le> total_questions w \<and>
            correct_answers w + incorrect_answers w = total_questions w) \<and>
         (\<exists>d. process_tests loads pystr [] ts = Inr d \<and>
              (\<forall>e \<in> set d. 1 \<le> n_total (snd e)) \<and>
              length (weaknesses r) = length d)"
proof -
  from assms obtain ws where
    run: "process_tests loads pystr [] ts = Inr (tally pystr (all_attempts loads ts) [])" and
    em: "list_all2 emits (tally pystr (all_attempts loads ts) []) ws" and
    r: "r = \<lparr>user_id = uid, weaknesses = sort_weaknesses ws,
             total_areas_analyzed = int (length (sort_weaknesses ws))\<rparr>"
    by (rule success_decomp)
  let ?d = "tally pystr (all_attempts loads ts) []"
  have ok: "\<forall>e \<in> set ?d. stats_ok (snd e)" by (rule tally_all_ok)
  have "1 \<le> total_questions w \<and> correct_answers w + incorrect_answers w = total_questions w"
    if "w \<in> set (weaknesses r)" for w
  proof -
    from that r have "w \<in> set ws" by (simp add: sort_weaknesses_def)
    with em obtain e where "e \<in> set ?d" "emits e w" by (blast dest: emitted_from)
    with ok show ?thesis by (auto simp: emits_def stats_ok_def)
  qed
  moreover have "\<forall>e \<in> set ?d. 1 \<le> n_total (snd e)"
    using ok by (simp add: stats_ok_def)
  moreover have "length (weaknesses r) = length ?d"
    using em r by (simp add: sort_weaknesses_def list_all2_lengthD)
  ultimately show ?thesis using run by blast
qed

theorem emitted_totals_positive_witness:
  "get_user_weaknesses example_loads example_str ''u1'' example_tests = Inr example_response \<and>
   list_all (\<lambda>w. 1 \<le> total_questions w \<and>
                correct_answers w + incorrect_answers w = total_questions w)
     (weaknesses example_response) \<and>
   process_tests example_loads example_str [] example_tests =
     Inr [(''Algebra | Math'', \<lparr>n_correct = 1, n_incorrect = 1, n_total = 2\<rparr>),
          (''Grammar | Verbal'', \<lparr>n_correct = 0, n_incorrect = 1, n_total = 1\<rparr>),
          (''Unknown | Unknown'', \<lparr>n_correct = 0, n_incorrect = 1, n_total = 1\<rparr>)] \<and>
   length (weaknesses example_response) = 3"
proof -
  have d: "process_tests example_loads example_str [] example_tests =
     Inr [(''Algebra | Math'', \<lparr>n_correct = 1, n_incorrect = 1, n_total = 2\<rparr>),
          (''Grammar | Verbal'', \<lparr>n_correct = 0, n_incorrect = 1, n_total = 1\<rparr>),
          (''Unknown | Unknown'', \<lparr>n_correct = 0, n_incorrect = 1, n_total = 1\<rparr>)]"
    by (simp add: eval_defs example_tests_def)
  from emitted_totals_positive[OF example_run] d example_run
  show ?thesis by (simp add: list_all_iff)
qed

end
